theory Spec2Isabelle
  imports Main "HOL-Library.AList" "HOL-Library.Multiset"
begin

section \<open>Values handled by the MQ broker resource\<close>

subsection \<open>Outcomes and errors\<close>

text \<open>
  A Go call either returns or panics (a failed type assertion such as
  \<^verbatim>\<open>g.(*schema.Set)\<close> on a value of another dynamic type, or on a missing map key,
  and a nil pointer dereference). A returned \<^verbatim>\<open>error\<close> is a value: an AWS error with
  a code and a message, any other error, or an error wrapped by
  \<^verbatim>\<open>fmt.Errorf("...: %w", err)\<close>.
\<close>

datatype 'a outcome = Panic | Return 'a

datatype go_error =
    AWSError string string
  | OtherError string
  | Wrapped string go_error

subsection \<open>schema.Set\<close>

text \<open>
  The SDK's \<^verbatim>\<open>schema.Set\<close> stores its items in a Go map under the key computed by the
  set's hash function. \<^verbatim>\<open>add\<close> stores an item only when its key is not taken yet,
  \<^verbatim>\<open>NewSet(F, items)\<close> adds the items one after the other, and \<^verbatim>\<open>List()\<close> returns
  the items in the sorted order of their keys. The type \<open>'k\<close> is the type of keys with
  the order \<^verbatim>\<open>List()\<close> sorts by; a set is the association list of its entries.
\<close>

type_synonym ('k, 'a) schema_set = "('k \<times> 'a) list"

definition Set_add :: "('a \<Rightarrow> 'k) \<Rightarrow> ('k, 'a) schema_set \<Rightarrow> 'a \<Rightarrow> ('k, 'a) schema_set" where
  "Set_add F s item =
     (case map_of s (F item) of
        None \<Rightarrow> s @ [(F item, item)]
      | Some _ \<Rightarrow> s)"

definition NewSet :: "('a \<Rightarrow> 'k) \<Rightarrow> 'a list \<Rightarrow> ('k, 'a) schema_set" where
  "NewSet F items = foldl (Set_add F) [] items"

definition Set_List :: "('k::linorder, 'a) schema_set \<Rightarrow> 'a list" where
  "Set_List s = map snd (sort_key fst s)"

subsection \<open>User maps and API requests\<close>

text \<open>
  One element of the \<^verbatim>\<open>user\<close> attribute is a \<^verbatim>\<open>map[string]interface{}\<close> with the
  keys of the schema: \<^verbatim>\<open>username\<close> (a string, read by every function below),
  \<^verbatim>\<open>password\<close>, \<^verbatim>\<open>console_access\<close> and \<^verbatim>\<open>groups\<close>. An absent key is \<open>None\<close>.
  The value under \<^verbatim>\<open>groups\<close> is a \<^verbatim>\<open>*schema.Set\<close> of strings when the map comes from
  the schema, and a \<^verbatim>\<open>[]interface{}\<close> once \<^verbatim>\<open>diffAwsMqBrokerUsers\<close> has converted it.
\<close>

datatype 'k groups_value = GSet "('k, string) schema_set" | GSlice "string list"

record 'k user_map =
  username :: string
  password :: "string option"
  console_access :: "bool option"
  groups :: "'k groups_value option"

record CreateUserRequest =
  cu_BrokerId :: string
  cu_ConsoleAccess :: bool
  cu_Groups :: "string list option"
  cu_Password :: string
  cu_Username :: string

record DeleteUserInput =
  du_BrokerId :: string
  du_Username :: string

record UpdateUserRequest =
  uu_BrokerId :: string
  uu_ConsoleAccess :: bool
  uu_Groups :: "string list"
  uu_Password :: string
  uu_Username :: string

section \<open>diffAwsMqBrokerUsers\<close>

text \<open>
  \<^verbatim>\<open>copystructure.Copy\<close> returns a deep copy of the map or an error. On a map of
  strings, booleans and a set pointer it returns the copy; what it puts under
  \<^verbatim>\<open>groups\<close> is overwritten by the caller before it is read.
\<close>

definition copystructure_Copy :: "'k user_map \<Rightarrow> go_error + 'k user_map" where
  "copystructure_Copy v = Inr v"

text \<open>
  Lines 609--615: the groups of an old user are converted in place,
  \<^verbatim>\<open>u["groups"] = g.(*schema.Set).List()\<close>. The map \<open>u\<close> is the caller's map.
\<close>

definition convertOldUser :: "('k::linorder) user_map \<Rightarrow> 'k user_map outcome" where
  "convertOldUser u =
     (case groups u of
        None \<Rightarrow> Return u
      | Some (GSet s) \<Rightarrow> Return (u\<lparr>groups := Some (GSlice (Set_List s))\<rparr>)
      | Some (GSlice l) \<Rightarrow> Panic)"

text \<open>
  Lines 607--618. \<open>existingUsers\<close> is the lookup keyed by username; the second component
  of the result is the list of the caller's old maps as the loop leaves them. The
  elements of \<open>oldUsers\<close> are distinct map objects, as \<^verbatim>\<open>Set.List()\<close> yields them.
\<close>

fun oldUsersLoop ::
  "('k::linorder) user_map list \<Rightarrow> (string \<times> 'k user_map) list \<Rightarrow>
   ((string \<times> 'k user_map) list \<times> 'k user_map list) outcome" where
  "oldUsersLoop [] existingUsers = Return (existingUsers, [])"
| "oldUsersLoop (ou # rest) existingUsers =
     (case convertOldUser ou of
        Panic \<Rightarrow> Panic
      | Return u \<Rightarrow>
          (case oldUsersLoop rest (AList.update (username u) u existingUsers) of
             Panic \<Rightarrow> Panic
           | Return (ex, us) \<Rightarrow> Return (ex, u # us)))"

text \<open>Lines 636--640: the groups of a new user, as a list, and the copy carrying them.\<close>

definition convertNewUser ::
  "('k::linorder) user_map \<Rightarrow> 'k user_map \<Rightarrow> (string list \<times> 'k user_map) outcome" where
  "convertNewUser nuOriginal newUserMap =
     (case groups nuOriginal of
        None \<Rightarrow> Return ([], newUserMap)
      | Some (GSet s) \<Rightarrow>
          Return (Set_List s, newUserMap\<lparr>groups := Some (GSlice (Set_List s))\<rparr>)
      | Some (GSlice l) \<Rightarrow> Panic)"

type_synonym 'k diff_state =
  "(string \<times> 'k user_map) list \<times> CreateUserRequest list \<times> UpdateUserRequest list"

text \<open>
  Lines 642--669, for one new user whose groups are \<open>ng\<close>. \<^verbatim>\<open>reflect.DeepEqual\<close> on two
  such maps is equality of the records: the same keys with equal strings, booleans and
  slices. \<open>expandStringList\<close> is the repository's helper turning the slice into the
  request's string list; it is a parameter.
\<close>

definition compareUser ::
  "string \<Rightarrow> (string list \<Rightarrow> string list) \<Rightarrow> string list \<Rightarrow> 'k user_map \<Rightarrow>
   'k diff_state \<Rightarrow> 'k diff_state outcome" where
  "compareUser bId expandStringList ng newUserMap st =
     (case st of (existingUsers, cr, ur) \<Rightarrow>
        (case map_of existingUsers (username newUserMap) of
           Some existingUserMap \<Rightarrow>
             (if existingUserMap \<noteq> newUserMap then
                (case (console_access newUserMap, password newUserMap) of
                   (Some ca, Some pw) \<Rightarrow>
                     Return (AList.delete (username newUserMap) existingUsers, cr,
                       ur @ [\<lparr>uu_BrokerId = bId, uu_ConsoleAccess = ca,
                              uu_Groups = expandStringList ng, uu_Password = pw,
                              uu_Username = username newUserMap\<rparr>])
                 | _ \<Rightarrow> Panic)
              else Return (AList.delete (username newUserMap) existingUsers, cr, ur))
         | None \<Rightarrow>
             (case (console_access newUserMap, password newUserMap) of
                (Some ca, Some pw) \<Rightarrow>
                  Return (existingUsers,
                    cr @ [\<lparr>cu_BrokerId = bId, cu_ConsoleAccess = ca,
                           cu_Groups = (if length ng > 0 then Some (expandStringList ng) else None),
                           cu_Password = pw, cu_Username = username newUserMap\<rparr>],
                    ur)
              | _ \<Rightarrow> Panic)))"

text \<open>
  Lines 620--670: the loop over the new users. A failing copy ends the loop and the
  function returns the lists built so far with the error.
\<close>

fun newUsersLoop ::
  "string \<Rightarrow> (string list \<Rightarrow> string list) \<Rightarrow> ('k::linorder) user_map list \<Rightarrow>
   'k diff_state \<Rightarrow> (go_error option \<times> 'k diff_state) outcome" where
  "newUsersLoop bId expandStringList [] st = Return (None, st)"
| "newUsersLoop bId expandStringList (nu # rest) st =
     (case copystructure_Copy nu of
        Inl err \<Rightarrow> Return (Some err, st)
      | Inr newUser \<Rightarrow>
          (case convertNewUser nu newUser of
             Panic \<Rightarrow> Panic
           | Return (ng, newUserMap) \<Rightarrow>
               (case compareUser bId expandStringList ng newUserMap st of
                  Panic \<Rightarrow> Panic
                | Return st' \<Rightarrow> newUsersLoop bId expandStringList rest st')))"

text \<open>
  The result \<open>(cr, di, ur, e)\<close> of the source, paired with the old maps as the call
  leaves them. Line 672 ranges over a Go map, whose iteration order is not specified;
  the model lists the remaining users in the order of their insertion.
\<close>

type_synonym diff_result =
  "CreateUserRequest list \<times> DeleteUserInput list \<times> UpdateUserRequest list \<times> go_error option"

definition diffAwsMqBrokerUsers ::
  "string \<Rightarrow> (string list \<Rightarrow> string list) \<Rightarrow> ('k::linorder) user_map list \<Rightarrow>
   'k user_map list \<Rightarrow> (diff_result \<times> 'k user_map list) outcome" where
  "diffAwsMqBrokerUsers bId expandStringList oldUsers newUsers =
     (case oldUsersLoop oldUsers [] of
        Panic \<Rightarrow> Panic
      | Return (existingUsers, oldUsers') \<Rightarrow>
          (case newUsersLoop bId expandStringList newUsers (existingUsers, [], []) of
             Panic \<Rightarrow> Panic
           | Return (Some err, (ex, cr, ur)) \<Rightarrow> Return ((cr, [], ur, Some err), oldUsers')
           | Return (None, (ex, cr, ur)) \<Rightarrow>
               Return ((cr,
                        map (\<lambda>(username, u). \<lparr>du_BrokerId = bId, du_Username = username\<rparr>) ex,
                        ur, None), oldUsers')))"

section \<open>updateAwsMqBrokerUsers\<close>

text \<open>
  The remote calls of the resource. A call is recorded with the error it returned
  (\<open>None\<close> is \<^verbatim>\<open>nil\<close>); the client answers a call from the calls made so far, so
  that every behaviour of the remote service is a client. The request bodies of
  \<^verbatim>\<open>UpdateBroker\<close>, \<^verbatim>\<open>RebootBroker\<close> and the tag update carry the broker's
  identifier only; \<open>WaitForState\<close> is the SDK's polling of \<^verbatim>\<open>DescribeBroker\<close> until the
  broker is running again, as one call.
\<close>

datatype api_call =
    CreateUser CreateUserRequest
  | DeleteUser DeleteUserInput
  | UpdateUser UpdateUserRequest
  | UpdateBrokerSecurityGroups string
  | UpdateBrokerConfiguration string
  | RebootBroker string
  | WaitForState string
  | MqUpdateTags string

type_synonym call_log = "(api_call \<times> go_error option) list"

type_synonym client = "call_log \<Rightarrow> api_call \<Rightarrow> go_error option"

definition invoke :: "client \<Rightarrow> api_call \<Rightarrow> call_log \<Rightarrow> go_error option \<times> call_log" where
  "invoke conn c lg = (conn lg c, lg @ [(c, conn lg c)])"

text \<open>
  One of the three loops of lines 579--599: the call is made, \<open>updatedUsers\<close> is set,
  and only then the error is looked at.
\<close>

fun callLoop ::
  "client \<Rightarrow> api_call list \<Rightarrow> bool \<Rightarrow> call_log \<Rightarrow> bool \<times> go_error option \<times> call_log" where
  "callLoop conn [] updatedUsers lg = (updatedUsers, None, lg)"
| "callLoop conn (c # cs) updatedUsers lg =
     (case invoke conn c lg of
        (Some err, lg') \<Rightarrow> (True, Some err, lg')
      | (None, lg') \<Rightarrow> callLoop conn cs True lg')"

definition updateAwsMqBrokerUsers ::
  "client \<Rightarrow> string \<Rightarrow> (string list \<Rightarrow> string list) \<Rightarrow> ('k::linorder) user_map list \<Rightarrow>
   'k user_map list \<Rightarrow> call_log \<Rightarrow> (bool \<times> go_error option \<times> call_log) outcome" where
  "updateAwsMqBrokerUsers conn bId expandStringList oldUsers newUsers lg =
     (case diffAwsMqBrokerUsers bId expandStringList oldUsers newUsers of
        Panic \<Rightarrow> Panic
      | Return ((createL, deleteL, updateL, Some err), _) \<Rightarrow> Return (False, Some err, lg)
      | Return ((createL, deleteL, updateL, None), _) \<Rightarrow>
          (case callLoop conn (map CreateUser createL) False lg of
             (updatedUsers, Some err, lg1) \<Rightarrow> Return (updatedUsers, Some err, lg1)
           | (updatedUsers, None, lg1) \<Rightarrow>
               (case callLoop conn (map DeleteUser deleteL) updatedUsers lg1 of
                  (updatedUsers, Some err, lg2) \<Rightarrow> Return (updatedUsers, Some err, lg2)
                | (updatedUsers, None, lg2) \<Rightarrow>
                    (case callLoop conn (map UpdateUser updateL) updatedUsers lg2 of
                       (updatedUsers, Some err, lg3) \<Rightarrow> Return (updatedUsers, Some err, lg3)
                     | (updatedUsers, None, lg3) \<Rightarrow> Return (updatedUsers, None, lg3)))))"

section \<open>flattenMqUsers\<close>











section \<open>The resource: read, update and the suppression of user diffs\<close>

text \<open>
  The part of \<^verbatim>\<open>schema.ResourceData\<close> that the functions below read and write:
  the identifier, three attributes, what \<^verbatim>\<open>HasChange\<close> answers, and the two lists
  that \<^verbatim>\<open>GetChange("user")\<close> yields.
\<close>

record 'k resource_data =
  d_Id :: string
  d_engine_type :: string
  d_arn :: string
  d_apply_immediately :: bool
  hasChange_security_groups :: bool
  hasChanges_configuration_logs :: bool
  hasChange_user :: bool
  hasChange_tags :: bool
  user_o :: "'k user_map list"
  user_n :: "'k user_map list"

definition ErrCodeNotFoundException :: string where
  "ErrCodeNotFoundException = ''NotFoundException''"

definition ErrCodeForbiddenException :: string where
  "ErrCodeForbiddenException = ''ForbiddenException''"


text \<open>
  Lines 345--366. \<open>isAWSErr\<close> is the repository's helper (is the error an AWS error
  with this code whose message contains this text) and is a parameter, as is the
  answer of \<^verbatim>\<open>DescribeBroker\<close>; \<open>readBroker\<close> stands for lines 368--419, which copy
  the description into the resource data.
\<close>

definition resourceAwsMqBrokerRead ::
  "(go_error \<Rightarrow> string \<Rightarrow> string \<Rightarrow> bool) \<Rightarrow> (string \<Rightarrow> go_error + 'out) \<Rightarrow>
   ('k resource_data \<Rightarrow> 'out \<Rightarrow> 'k resource_data \<times> go_error option) \<Rightarrow>
   'k resource_data \<Rightarrow> 'k resource_data \<times> go_error option" where
  "resourceAwsMqBrokerRead isAWSErr DescribeBroker readBroker d =
     (case DescribeBroker (d_Id d) of
        Inl err \<Rightarrow>
          (if isAWSErr err ErrCodeNotFoundException [] then (d\<lparr>d_Id := []\<rparr>, None)
           else if isAWSErr err ErrCodeForbiddenException ''Forbidden''
             then (d\<lparr>d_Id := []\<rparr>, None)
           else (d, Some err))
      | Inr out \<Rightarrow> readBroker d out)"

text \<open>Lines 427--447: the two \<^verbatim>\<open>UpdateBroker\<close> calls.\<close>

definition updateSecurityGroups ::
  "client \<Rightarrow> 'k resource_data \<Rightarrow> call_log \<Rightarrow> go_error option \<times> call_log" where
  "updateSecurityGroups conn d lg =
     (if hasChange_security_groups d
      then invoke conn (UpdateBrokerSecurityGroups (d_Id d)) lg
      else (None, lg))"

definition updateConfiguration ::
  "client \<Rightarrow> 'k resource_data \<Rightarrow> call_log \<Rightarrow> go_error option \<times> call_log" where
  "updateConfiguration conn d lg =
     (if hasChanges_configuration_logs d
      then invoke conn (UpdateBrokerConfiguration (d_Id d)) lg
      else (None, lg))"

text \<open>Lines 449--464.\<close>

definition updateUsers ::
  "client \<Rightarrow> (string list \<Rightarrow> string list) \<Rightarrow> ('k::linorder) resource_data \<Rightarrow> call_log \<Rightarrow>
   (bool \<times> go_error option \<times> call_log) outcome" where
  "updateUsers conn expandStringList d lg =
     (if hasChange_user d
      then updateAwsMqBrokerUsers conn (d_Id d) expandStringList (user_o d) (user_n d) lg
      else Return (False, None, lg))"

text \<open>Lines 466--496.\<close>

definition rebootBroker ::
  "client \<Rightarrow> 'k resource_data \<Rightarrow> bool \<Rightarrow> call_log \<Rightarrow> go_error option \<times> call_log" where
  "rebootBroker conn d requiresReboot lg =
     (if d_apply_immediately d \<and> requiresReboot then
        (case invoke conn (RebootBroker (d_Id d)) lg of
           (Some err, lg') \<Rightarrow>
             (Some (Wrapped (''error rebooting MQ Broker ('' @ d_Id d @ '')'') err), lg')
         | (None, lg') \<Rightarrow> invoke conn (WaitForState (d_Id d)) lg')
      else (None, lg))"

text \<open>Lines 498--504.\<close>

definition updateTags ::
  "client \<Rightarrow> 'k resource_data \<Rightarrow> call_log \<Rightarrow> go_error option \<times> call_log" where
  "updateTags conn d lg =
     (if hasChange_tags d then
        (case invoke conn (MqUpdateTags (d_arn d)) lg of
           (Some err, lg') \<Rightarrow>
             (Some (Wrapped (''error updating MQ Broker ('' @ d_arn d @ '') tags'') err), lg')
         | (None, lg') \<Rightarrow> (None, lg'))
      else (None, lg))"

definition resourceAwsMqBrokerUpdate ::
  "client \<Rightarrow> (string list \<Rightarrow> string list) \<Rightarrow> ('k::linorder) resource_data \<Rightarrow> call_log \<Rightarrow>
   (go_error option \<times> call_log) outcome" where
  "resourceAwsMqBrokerUpdate conn expandStringList d lg =
     (case updateSecurityGroups conn d lg of
        (Some err, lg1) \<Rightarrow>
          Return (Some (Wrapped
            (''error updating MQ Broker ('' @ d_Id d @ '') security groups'') err), lg1)
      | (None, lg1) \<Rightarrow>
          (case updateConfiguration conn d lg1 of
             (Some err, lg2) \<Rightarrow>
               Return (Some (Wrapped
                 (''error updating MQ Broker ('' @ d_Id d @ '') configuration'') err), lg2)
           | (None, lg2) \<Rightarrow>
               (case updateUsers conn expandStringList d lg2 of
                  Panic \<Rightarrow> Panic
                | Return (usersUpdated, Some err, lg3) \<Rightarrow>
                    Return (Some (Wrapped
                      (''error updating MQ Broker ('' @ d_Id d @ '') user'') err), lg3)
                | Return (usersUpdated, None, lg3) \<Rightarrow>
                    (case rebootBroker conn d
                            (hasChanges_configuration_logs d \<or> usersUpdated) lg3 of
                       (Some err, lg4) \<Rightarrow> Return (Some err, lg4)
                     | (None, lg4) \<Rightarrow> Return (updateTags conn d lg4)))))"




section \<open>Notions used to state the properties\<close>

text \<open>
  The shape the schema gives a user map: \<^verbatim>\<open>groups\<close>, when present, is a set, and a
  declared user carries \<^verbatim>\<open>console_access\<close> and \<^verbatim>\<open>password\<close>.
\<close>

definition groupsAsSet :: "'k user_map \<Rightarrow> bool" where
  "groupsAsSet u = (case groups u of Some (GSlice l) \<Rightarrow> False | _ \<Rightarrow> True)"

definition hasCredentials :: "'k user_map \<Rightarrow> bool" where
  "hasCredentials u = (console_access u \<noteq> None \<and> password u \<noteq> None)"

text \<open>
  The attributes of a user as the diff compares them: the map with its groups listed
  by \<^verbatim>\<open>List()\<close>.
\<close>

definition groupsList :: "('k::linorder) user_map \<Rightarrow> string list" where
  "groupsList u =
     (case groups u of Some (GSet s) \<Rightarrow> Set_List s | Some (GSlice l) \<Rightarrow> l | None \<Rightarrow> [])"

definition listGroups :: "('k::linorder) user_map \<Rightarrow> 'k user_map" where
  "listGroups u =
     (case groups u of None \<Rightarrow> u | Some g \<Rightarrow> u\<lparr>groups := Some (GSlice (groupsList u))\<rparr>)"



text \<open>
  Facts about a log of calls: every call returned no error, some call returned no
  error, and the recorded answers are those of the client after the calls before.
\<close>

definition allSucceeded :: "call_log \<Rightarrow> bool" where
  "allSucceeded lg = list_all (\<lambda>(c, r). r = None) lg"

definition anySucceeded :: "call_log \<Rightarrow> bool" where
  "anySucceeded lg = list_ex (\<lambda>(c, r). r = None) lg"

fun answeredBy :: "client \<Rightarrow> call_log \<Rightarrow> call_log \<Rightarrow> bool" where
  "answeredBy conn lg [] = True"
| "answeredBy conn lg ((c, r) # new) =
     (r = conn lg c \<and> answeredBy conn (lg @ [(c, r)]) new)"

fun isUserCall :: "api_call \<Rightarrow> bool" where
  "isUserCall (CreateUser c) = True"
| "isUserCall (DeleteUser c) = True"
| "isUserCall (UpdateUser c) = True"
| "isUserCall c = False"



section \<open>Example inputs\<close>

text \<open>
  Instances of the parameters: a key function for sets of group names, the
  repository's \<^verbatim>\<open>expandStringList\<close> (it drops empty strings) and \<^verbatim>\<open>isAWSErr\<close>
  (the code of the AWS error inside is the given one and its message contains the
  given text), and three clients.
\<close>

definition groupKey :: "string \<Rightarrow> nat" where
  "groupKey s = length s"

definition expandStringList_example :: "string list \<Rightarrow> string list" where
  "expandStringList_example l = filter (\<lambda>v. v \<noteq> []) l"

definition contains :: "string \<Rightarrow> string \<Rightarrow> bool" where
  "contains s sub = list_ex (\<lambda>i. take (length sub) (drop i s) = sub) [0..<Suc (length s)]"

fun isAWSErr_example :: "go_error \<Rightarrow> string \<Rightarrow> string \<Rightarrow> bool" where
  "isAWSErr_example (AWSError c m) code message = (c = code \<and> contains m message)"
| "isAWSErr_example (Wrapped t err) code message = isAWSErr_example err code message"
| "isAWSErr_example (OtherError t) code message = False"

definition okClient :: client where
  "okClient lg c = None"

definition failingClient :: client where
  "failingClient lg c = Some (OtherError ''ServiceUnavailable'')"

definition createUserFails :: client where
  "createUserFails lg c =
     (case c of CreateUser r \<Rightarrow> Some (AWSError ''ConflictException'' ''user exists'')
      | _ \<Rightarrow> None)"

definition deleteUserFails :: client where
  "deleteUserFails lg c =
     (case c of DeleteUser r \<Rightarrow> Some (AWSError ''NotFoundException'' ''no such user'')
      | _ \<Rightarrow> None)"

definition alice :: "nat user_map" where
  "alice = \<lparr>username = ''alice'', password = Some ''alice-secret-1'',
            console_access = Some False,
            groups = Some (GSet (NewSet groupKey [''admin'', ''ops'']))\<rparr>"

definition alice_reordered :: "nat user_map" where
  "alice_reordered = \<lparr>username = ''alice'', password = Some ''alice-secret-1'',
            console_access = Some False,
            groups = Some (GSet (NewSet groupKey [''ops'', ''admin'']))\<rparr>"

definition alice_console :: "nat user_map" where
  "alice_console = \<lparr>username = ''alice'', password = Some ''alice-secret-1'',
            console_access = Some True,
            groups = Some (GSet (NewSet groupKey [''admin'', ''ops'']))\<rparr>"

definition alice_listed :: "nat user_map" where
  "alice_listed = \<lparr>username = ''alice'', password = Some ''alice-secret-1'',
            console_access = Some False,
            groups = Some (GSlice [''ops'', ''admin''])\<rparr>"

definition bob :: "nat user_map" where
  "bob = \<lparr>username = ''bob'', password = Some ''bob-secret-22'',
          console_access = Some True,
          groups = Some (GSet (NewSet groupKey []))\<rparr>"

definition carol :: "nat user_map" where
  "carol = \<lparr>username = ''carol'', password = Some ''carol-secret-3'',
            console_access = Some False, groups = None\<rparr>"

definition carol_create :: CreateUserRequest where
  "carol_create = \<lparr>cu_BrokerId = ''b-1'', cu_ConsoleAccess = False, cu_Groups = None,
                   cu_Password = ''carol-secret-3'', cu_Username = ''carol''\<rparr>"

definition bob_delete :: DeleteUserInput where
  "bob_delete = \<lparr>du_BrokerId = ''b-1'', du_Username = ''bob''\<rparr>"



definition broker_d :: "nat resource_data" where
  "broker_d = \<lparr>d_Id = ''b-1'', d_engine_type = ''ActiveMQ'', d_arn = ''arn:aws:mq:b-1'',
               d_apply_immediately = True, hasChange_security_groups = False,
               hasChanges_configuration_logs = True, hasChange_user = True,
               hasChange_tags = False, user_o = [], user_n = [carol]\<rparr>"


definition describe_notFound :: "string \<Rightarrow> go_error + unit" where
  "describe_notFound bId = Inl (AWSError ''NotFoundException'' ''broker not found'')"

definition readBroker_example :: "nat resource_data \<Rightarrow> unit \<Rightarrow> nat resource_data \<times> go_error option" where
  "readBroker_example d out = (d, None)"

section \<open>Auxiliary facts\<close>

subsection \<open>Sets of the SDK\<close>











subsection \<open>The two loops of the diff\<close>

lemma username_listGroups [simp]: "username (listGroups u) = username u"
  by (simp add: listGroups_def split: option.splits)

lemma hasCredentials_listGroups [simp]: "hasCredentials (listGroups u) = hasCredentials u"
  by (simp add: listGroups_def hasCredentials_def split: option.splits)

lemma convertOldUser_Return: "groupsAsSet u \<Longrightarrow> convertOldUser u = Return (listGroups u)"
  by (auto simp: groupsAsSet_def convertOldUser_def listGroups_def groupsList_def
           split: option.splits groups_value.splits)

lemma convertNewUser_Return:
  "groupsAsSet u \<Longrightarrow> convertNewUser u u = Return (groupsList u, listGroups u)"
  by (auto simp: groupsAsSet_def convertNewUser_def listGroups_def groupsList_def
           split: option.splits groups_value.splits)

lemma update_fresh: "k \<notin> fst ` set al \<Longrightarrow> AList.update k v al = al @ [(k, v)]"
  by (induction al) auto

lemma oldUsersLoop_spec:
  assumes "list_all groupsAsSet oldUsers" "distinct (map fst ex @ map username oldUsers)"
  shows "oldUsersLoop oldUsers ex =
           Return (ex @ map (\<lambda>u. (username u, listGroups u)) oldUsers, map listGroups oldUsers)"
  using assms
proof (induction oldUsers arbitrary: ex)
  case Nil
  then show ?case by simp
next
  case (Cons u us)
  have k: "username u \<notin> fst ` set ex" using Cons.prems(2) by auto
  have d: "distinct (map fst (ex @ [(username u, listGroups u)]) @ map username us)"
    using Cons.prems(2) by auto
  have g: "list_all groupsAsSet us" "groupsAsSet u" using Cons.prems(1) by auto
  show ?case
    using Cons.IH[OF g(1) d] g(2) k
    by (simp add: convertOldUser_Return update_fresh)
qed

lemma delete_filter: "AList.delete k al = filter (\<lambda>(k', v). k' \<noteq> k) al"
  by (induction al) auto

lemma compareUser_spec:
  assumes "map_of ex (username m) = Some m \<or> hasCredentials m"
  shows "\<exists>c u. compareUser bId expand ng m (ex, cr, ur) =
           Return (AList.delete (username m) ex,
                   cr @ (if map_of ex (username m) = None then [c] else []),
                   ur @ (if map_of ex (username m) \<noteq> None \<and> map_of ex (username m) \<noteq> Some m
                         then [u] else []))
         \<and> cu_Username c = username m \<and> uu_Username u = username m"
proof (cases "map_of ex (username m)")
  case None
  then have h: "hasCredentials m" using assms by simp
  then obtain ca pw where c: "console_access m = Some ca" "password m = Some pw"
    by (auto simp: hasCredentials_def)
  have "username m \<notin> fst ` set ex" using None by (simp add: map_of_eq_None_iff)
  then have "AList.delete (username m) ex = ex" by simp
  then show ?thesis using None c
    by (simp add: compareUser_def) (metis UpdateUserRequest.select_convs(5))
next
  case (Some eu)
  show ?thesis
  proof (cases "eu = m")
    case True
    then show ?thesis using Some
      by (simp add: compareUser_def) (metis UpdateUserRequest.select_convs(5) CreateUserRequest.select_convs(5))
  next
    case False
    then have h: "hasCredentials m" using assms Some by simp
    then obtain ca pw where c: "console_access m = Some ca" "password m = Some pw"
      by (auto simp: hasCredentials_def)
    show ?thesis using Some False c
      by (simp add: compareUser_def) (metis CreateUserRequest.select_convs(5))
  qed
qed

lemma newUsersLoop_spec:
  fixes new :: "('k::linorder) user_map list"
  assumes "list_all groupsAsSet new" "distinct (map username new)"
    "\<forall>n\<in>set new. map_of ex (username n) = Some (listGroups n) \<or> hasCredentials n"
  shows "\<exists>cr' ur'.
      newUsersLoop bId expand new (ex, cr, ur) =
        Return (None, (filter (\<lambda>(k, v). k \<notin> set (map username new)) ex, cr', ur'))
    \<and> map cu_Username cr' =
        map cu_Username cr @ map username [n\<leftarrow>new. map_of ex (username n) = None]
    \<and> map uu_Username ur' =
        map uu_Username ur @
        map username [n\<leftarrow>new. map_of ex (username n) \<noteq> None
                              \<and> map_of ex (username n) \<noteq> Some (listGroups n)]"
  using assms
proof (induction new arbitrary: ex cr ur)
  case Nil
  then show ?case by simp
next
  case (Cons n ns)
  let ?k = "username n"
  let ?ex = "AList.delete ?k ex"
  have g: "groupsAsSet n" "list_all groupsAsSet ns" using Cons.prems(1) by auto
  have d: "distinct (map username ns)" "?k \<notin> set (map username ns)"
    using Cons.prems(2) by auto
  have same: "map_of ?ex (username r) = map_of ex (username r)" if "r \<in> set ns" for r :: "'k user_map"
  proof -
    have "username r \<noteq> ?k" using that d(2) by (metis image_eqI set_map)
    then show ?thesis by simp
  qed
  have c3: "\<forall>r\<in>set ns. map_of ?ex (username r) = Some (listGroups r) \<or> hasCredentials r"
    using Cons.prems(3) same by auto
  have "map_of ex (username (listGroups n)) = Some (listGroups n) \<or> hasCredentials (listGroups n)"
    using Cons.prems(3) by simp
  from compareUser_spec[OF this, of bId expand "groupsList n" cr ur]
  obtain c u where cu:
    "compareUser bId expand (groupsList n) (listGroups n) (ex, cr, ur) =
       Return (?ex, cr @ (if map_of ex ?k = None then [c] else []),
               ur @ (if map_of ex ?k \<noteq> None \<and> map_of ex ?k \<noteq> Some (listGroups n)
                     then [u] else []))"
    "cu_Username c = ?k" "uu_Username u = ?k"
    by auto
  let ?cr = "cr @ (if map_of ex ?k = None then [c] else [])"
  let ?ur = "ur @ (if map_of ex ?k \<noteq> None \<and> map_of ex ?k \<noteq> Some (listGroups n) then [u] else [])"
  have step: "newUsersLoop bId expand (n # ns) (ex, cr, ur) = newUsersLoop bId expand ns (?ex, ?cr, ?ur)"
    using g(1) cu(1) by (simp add: copystructure_Copy_def convertNewUser_Return)
  from Cons.IH[OF g(2) d(1) c3, of ?cr ?ur]
  obtain cr' ur' where ih:
    "newUsersLoop bId expand ns (?ex, ?cr, ?ur) =
       Return (None, (filter (\<lambda>(k, v). k \<notin> set (map username ns)) ?ex, cr', ur'))"
    "map cu_Username cr' =
       map cu_Username ?cr @ map username [r\<leftarrow>ns. map_of ?ex (username r) = None]"
    "map uu_Username ur' =
       map uu_Username ?ur @
       map username [r\<leftarrow>ns. map_of ?ex (username r) \<noteq> None
                             \<and> map_of ?ex (username r) \<noteq> Some (listGroups r)]"
    by blast
  have f1: "filter (\<lambda>(k, v). k \<notin> set (map username ns)) ?ex
          = filter (\<lambda>(k, v). k \<notin> set (map username (n # ns))) ex"
    by (auto simp: delete_filter intro: filter_cong)
  have f2: "[r\<leftarrow>ns. map_of ?ex (username r) = None] = [r\<leftarrow>ns. map_of ex (username r) = None]"
    using same by (auto intro: filter_cong)
  have f3: "[r\<leftarrow>ns. map_of ?ex (username r) \<noteq> None \<and> map_of ?ex (username r) \<noteq> Some (listGroups r)]
          = [r\<leftarrow>ns. map_of ex (username r) \<noteq> None \<and> map_of ex (username r) \<noteq> Some (listGroups r)]"
    using same by (auto intro: filter_cong)
  have r1: "newUsersLoop bId expand (n # ns) (ex, cr, ur) =
        Return (None, (filter (\<lambda>(k, v). k \<notin> set (map username (n # ns))) ex, cr', ur'))"
    using step ih(1) f1 by simp
  have r2: "map cu_Username cr' =
        map cu_Username cr @ map username [r\<leftarrow>n # ns. map_of ex (username r) = None]"
    using ih(2) cu(2) unfolding f2 by simp
  have r3: "map uu_Username ur' =
        map uu_Username ur @
        map username [r\<leftarrow>n # ns. map_of ex (username r) \<noteq> None
                              \<and> map_of ex (username r) \<noteq> Some (listGroups r)]"
    using ih(3) cu(3) unfolding f3 by simp
  show ?case using r1 r2 r3 by blast
qed

lemma map_of_existing:
  fixes old :: "('k::linorder) user_map list"
  assumes "distinct (map username old)" "o' \<in> set old"
  shows "map_of (map (\<lambda>u. (username u, listGroups u)) old) (username o') = Some (listGroups o')"
proof (rule map_of_is_SomeI)
  show "distinct (map fst (map (\<lambda>u. (username u, listGroups u)) old))"
    using assms(1) by (simp add: comp_def)
  show "(username o', listGroups o') \<in> set (map (\<lambda>u. (username u, listGroups u)) old)"
    using assms(2) by auto
qed

lemma map_of_existing_None:
  fixes old :: "('k::linorder) user_map list"
  shows "(map_of (map (\<lambda>u. (username u, listGroups u)) old) k = None) = (k \<notin> set (map username old))"
  by (simp add: map_of_eq_None_iff image_comp comp_def)

lemma diff_spec:
  fixes old new :: "('k::linorder) user_map list"
  assumes "list_all groupsAsSet old" "list_all groupsAsSet new"
    "distinct (map username old)" "distinct (map username new)"
    "\<forall>n\<in>set new. (\<exists>o'\<in>set old. username o' = username n \<and> listGroups o' = listGroups n)
                     \<or> hasCredentials n"
  shows "\<exists>cr di ur.
      diffAwsMqBrokerUsers bId expand old new = Return ((cr, di, ur, None), map listGroups old)
    \<and> map cu_Username cr = map username [n\<leftarrow>new. username n \<notin> set (map username old)]
    \<and> map du_Username di = [k\<leftarrow>map username old. k \<notin> set (map username new)]
    \<and> map uu_Username ur =
        map username [n\<leftarrow>new. \<exists>o'\<in>set old. username o' = username n
                                              \<and> listGroups o' \<noteq> listGroups n]"
proof -
  let ?ex = "map (\<lambda>u. (username u, listGroups u)) old"
  have o: "oldUsersLoop old [] = Return (?ex, map listGroups old)"
    using oldUsersLoop_spec[of old "[]"] assms(1,3) by simp
  have c: "\<forall>n\<in>set new. map_of ?ex (username n) = Some (listGroups n) \<or> hasCredentials n"
  proof
    fix n assume "n \<in> set new"
    with assms(5) consider
      (a) o' where "o' \<in> set old" "username o' = username n" "listGroups o' = listGroups n"
      | (b) "hasCredentials n" by blast
    then show "map_of ?ex (username n) = Some (listGroups n) \<or> hasCredentials n"
    proof cases
      case a
      then show ?thesis using map_of_existing[OF assms(3) a(1)] by simp
    next
      case b
      then show ?thesis by simp
    qed
  qed
  from newUsersLoop_spec[OF assms(2) assms(4) c, of bId expand "[]" "[]"]
  obtain cr ur where n:
    "newUsersLoop bId expand new (?ex, [], []) =
       Return (None, (filter (\<lambda>(k, v). k \<notin> set (map username new)) ?ex, cr, ur))"
    "map cu_Username cr = map username [n\<leftarrow>new. map_of ?ex (username n) = None]"
    "map uu_Username ur =
       map username [n\<leftarrow>new. map_of ?ex (username n) \<noteq> None
                             \<and> map_of ?ex (username n) \<noteq> Some (listGroups n)]"
    by auto
  let ?di = "map (\<lambda>(username, u). \<lparr>du_BrokerId = bId, du_Username = username\<rparr>)
               (filter (\<lambda>(k, v). k \<notin> set (map username new)) ?ex)"
  have r1: "diffAwsMqBrokerUsers bId expand old new = Return ((cr, ?di, ur, None), map listGroups old)"
    using o n(1) by (simp add: diffAwsMqBrokerUsers_def)
  have r2: "map cu_Username cr = map username [n\<leftarrow>new. username n \<notin> set (map username old)]"
    unfolding n(2) map_of_existing_None ..
  have r3: "map du_Username ?di = [k\<leftarrow>map username old. k \<notin> set (map username new)]"
    by (simp add: filter_map comp_def case_prod_unfold)
  have e: "(map_of ?ex (username n) \<noteq> None \<and> map_of ?ex (username n) \<noteq> Some (listGroups n))
         = (\<exists>o'\<in>set old. username o' = username n \<and> listGroups o' \<noteq> listGroups n)" for n :: "'k user_map"
  proof (cases "username n \<in> set (map username old)")
    case True
    then obtain o' where o': "o' \<in> set old" "username o' = username n" by auto
    have m: "map_of ?ex (username n) = Some (listGroups o')"
      using map_of_existing[OF assms(3) o'(1)] o'(2) by simp
    have u: "o'' = o'" if "o'' \<in> set old" "username o'' = username n" for o''
    proof -
      have "inj_on username (set old)" using assms(3) by (simp add: distinct_map)
      moreover have "username o'' = username o'" using that(2) o'(2) by simp
      ultimately show ?thesis using that(1) o'(1) by (rule inj_onD)
    qed
    have "(\<exists>o''\<in>set old. username o'' = username n \<and> listGroups o'' \<noteq> listGroups n)
            = (listGroups o' \<noteq> listGroups n)"
      using o' u by blast
    then show ?thesis unfolding m by simp
  next
    case False
    then have "map_of ?ex (username n) = None" by (simp add: map_of_existing_None)
    moreover have "\<not> (\<exists>o'\<in>set old. username o' = username n \<and> listGroups o' \<noteq> listGroups n)"
      using False by (metis image_eqI set_map)
    ultimately show ?thesis by simp
  qed
  have r4: "map uu_Username ur =
        map username [n\<leftarrow>new. \<exists>o'\<in>set old. username o' = username n
                                              \<and> listGroups o' \<noteq> listGroups n]"
    unfolding n(3) e ..
  show ?thesis using r1 r2 r3 r4 by blast
qed




subsection \<open>The loops of remote calls\<close>

lemma callLoop_append:
  "callLoop conn (xs @ ys) u lg =
     (case callLoop conn xs u lg of
        (u', Some e, lg') \<Rightarrow> (u', Some e, lg')
      | (u', None, lg') \<Rightarrow> callLoop conn ys u' lg')"
  by (induction xs arbitrary: u lg) (auto simp: invoke_def split: option.splits prod.splits)

lemma callLoop_log:
  assumes "callLoop conn cs u lg = (u', err, lg')"
  shows "\<exists>new. lg' = lg @ new \<and> map fst new = take (length new) cs
           \<and> answeredBy conn lg new
           \<and> u' = (u \<or> new \<noteq> [])
           \<and> (err = None \<longrightarrow> map fst new = cs \<and> allSucceeded new)
           \<and> (\<forall>e. err = Some e \<longrightarrow> new \<noteq> [] \<and> snd (last new) = Some e \<and> allSucceeded (butlast new))"
  using assms
proof (induction cs arbitrary: u lg)
  case Nil
  then show ?case by (auto simp: allSucceeded_def)
next
  case (Cons c cs)
  show ?case
  proof (cases "conn lg c")
    case None
    with Cons.prems have "callLoop conn cs True (lg @ [(c, None)]) = (u', err, lg')"
      by (simp add: invoke_def)
    from Cons.IH[OF this] obtain new where n: "lg' = (lg @ [(c, None)]) @ new" 
       "map fst new = take (length new) cs"
       "answeredBy conn (lg @ [(c, None)]) new"
       "err = None \<longrightarrow> map fst new = cs \<and> allSucceeded new"
       "\<forall>e. err = Some e \<longrightarrow> new \<noteq> [] \<and> snd (last new) = Some e \<and> allSucceeded (butlast new)"
       "u' = True" by auto
    let ?new = "(c, None) # new"
    have "lg' = lg @ ?new" using n by simp
    moreover have "map fst ?new = take (length ?new) (c # cs)" using n by simp
    moreover have "answeredBy conn lg ?new"
      using n(3) None by simp
    moreover have "u' = (u \<or> ?new \<noteq> [])" using n by simp
    moreover have "err = None \<longrightarrow> map fst ?new = c # cs \<and> allSucceeded ?new"
      using n(4) by (simp add: allSucceeded_def)
    moreover have "\<forall>e. err = Some e \<longrightarrow> ?new \<noteq> [] \<and> snd (last ?new) = Some e \<and> allSucceeded (butlast ?new)"
      using n(5) by (simp add: allSucceeded_def)
    ultimately show ?thesis by (intro exI[of _ ?new] conjI)
  next
    case (Some e)
    with Cons.prems have r: "u' = True" "err = Some e" "lg' = lg @ [(c, Some e)]"
      by (auto simp: invoke_def)
    show ?thesis
      by (rule exI[of _ "[(c, Some e)]"]) (use r Some in \<open>simp add: allSucceeded_def \<close>)
  qed
qed

lemma newUsersLoop_no_error:
  "newUsersLoop bId ex new st = Return (e, st') \<Longrightarrow> e = None"
  by (induction new arbitrary: st)
     (auto simp: copystructure_Copy_def split: outcome.splits prod.splits)

lemma diff_no_error:
  "diffAwsMqBrokerUsers bId ex old new = Return ((cr, di, ur, e), old') \<Longrightarrow> e = None"
  by (auto simp: diffAwsMqBrokerUsers_def split: outcome.splits prod.splits option.splits
           dest: newUsersLoop_no_error)

lemma update_as_callLoop:
  assumes "diffAwsMqBrokerUsers bId ex old new = Return ((cr, di, ur, e), old')"
  shows "updateAwsMqBrokerUsers conn bId ex old new lg =
           Return (callLoop conn (map CreateUser cr @ map DeleteUser di @ map UpdateUser ur) False lg)"
proof -
  have e: "e = None" using assms by (rule diff_no_error)
  show ?thesis
    using assms unfolding e updateAwsMqBrokerUsers_def callLoop_append
    by (simp split: prod.splits option.splits)
qed

lemma update_log:
  assumes "diffAwsMqBrokerUsers bId ex old new = Return ((cr, di, ur, e), old')"
  shows "\<exists>mutated err new'.
           updateAwsMqBrokerUsers conn bId ex old new lg = Return (mutated, err, lg @ new')
         \<and> map fst new' = take (length new') (map CreateUser cr @ map DeleteUser di @ map UpdateUser ur)
         \<and> answeredBy conn lg new'
         \<and> mutated = (new' \<noteq> [])
         \<and> (err = None \<longrightarrow> map fst new' = map CreateUser cr @ map DeleteUser di @ map UpdateUser ur
                \<and> allSucceeded new')
         \<and> (\<forall>e. err = Some e \<longrightarrow> new' \<noteq> [] \<and> snd (last new') = Some e \<and> allSucceeded (butlast new'))"
proof -
  let ?cs = "map CreateUser cr @ map DeleteUser di @ map UpdateUser ur"
  obtain u' err lg' where c: "callLoop conn ?cs False lg = (u', err, lg')"
    by (cases "callLoop conn ?cs False lg") auto
  from callLoop_log[OF c] obtain new' where n: "lg' = lg @ new'"
    "map fst new' = take (length new') ?cs" "answeredBy conn lg new'" "u' = (False \<or> new' \<noteq> [])"
    "err = None \<longrightarrow> map fst new' = ?cs \<and> allSucceeded new'"
    "\<forall>e. err = Some e \<longrightarrow> new' \<noteq> [] \<and> snd (last new') = Some e \<and> allSucceeded (butlast new')"
    by blast
  have "updateAwsMqBrokerUsers conn bId ex old new lg = Return (u', err, lg @ new')"
    using update_as_callLoop[OF assms] c n(1) by simp
  moreover have "u' = (new' \<noteq> [])" using n(4) by simp
  ultimately show ?thesis using n(2,3,5,6) by blast
qed

lemma updateAwsMqBrokerUsers_calls:
  assumes "updateAwsMqBrokerUsers conn bId ex old new lg = Return (mutated, err, lg')"
  shows "\<exists>new'. lg' = lg @ new' \<and> list_all isUserCall (map fst new')"
proof -
  obtain cr di ur e old' where d:
    "diffAwsMqBrokerUsers bId ex old new = Return ((cr, di, ur, e), old')"
    using assms
    by (cases "diffAwsMqBrokerUsers bId ex old new")
       (auto simp: updateAwsMqBrokerUsers_def)
  from update_log[OF d, of conn lg] obtain new' where n:
    "lg' = lg @ new'"
    "map fst new' = take (length new') (map CreateUser cr @ map DeleteUser di @ map UpdateUser ur)"
    using assms by auto
  have "list_all isUserCall (map CreateUser cr @ map DeleteUser di @ map UpdateUser ur)"
    by (auto simp: list_all_iff)
  then have "list_all isUserCall (map fst new')"
    unfolding n(2) list_all_iff using set_take_subset by fast
  then show ?thesis using n(1) by blast
qed

lemma updateUsers_calls:
  assumes "updateUsers conn ex d lg = Return (mutated, err, lg')"
  shows "\<exists>new'. lg' = lg @ new' \<and> list_all isUserCall (map fst new')"
proof (cases "hasChange_user d")
  case True
  then show ?thesis using assms updateAwsMqBrokerUsers_calls by (simp add: updateUsers_def)
next
  case False
  then show ?thesis using assms by (simp add: updateUsers_def)
qed

subsection \<open>Flattening the users of a remote read\<close>







subsection \<open>Case folding\<close>


subsection \<open>Unfolding the examples\<close>

lemmas example_defs =
  alice_def alice_reordered_def alice_console_def alice_listed_def bob_def carol_def
  carol_create_def bob_delete_def groupKey_def expandStringList_example_def
  NewSet_def Set_add_def Set_List_def

lemmas diff_defs =
  diffAwsMqBrokerUsers_def convertOldUser_def convertNewUser_def compareUser_def
  copystructure_Copy_def

lemmas update_defs =
  updateAwsMqBrokerUsers_def invoke_def okClient_def failingClient_def
  createUserFails_def deleteUserFails_def

section \<open>The properties\<close>

subsection \<open>The diff of the user collections\<close>

text \<open>
  C1. For an observed and a declared collection, each with unique usernames and with
  maps of the shape the schema gives them, \<^verbatim>\<open>diffAwsMqBrokerUsers\<close> returns, and
  the usernames of its lists are: ToCreate, the declared names that are not observed;
  ToUpdate, the names present in both whose attributes (groups as listed by the set)
  differ; ToDelete, the observed names that are not declared. The names in none of
  the lists are those present in both with equal attributes, and the three lists
  together hold no username twice: every name is in exactly one of the four classes.
\<close>

theorem diff_partition:
  fixes oldUsers newUsers :: "('k::linorder) user_map list"
  assumes "distinct (map username oldUsers)" "distinct (map username newUsers)"
    "list_all groupsAsSet oldUsers" "list_all groupsAsSet newUsers"
    "list_all hasCredentials newUsers"
  shows "\<exists>cr di ur oldUsers'.
      diffAwsMqBrokerUsers bId expand oldUsers newUsers = Return ((cr, di, ur, None), oldUsers')
    \<and> set (map cu_Username cr) = set (map username newUsers) - set (map username oldUsers)
    \<and> set (map uu_Username ur) =
        {username n | n. n \<in> set newUsers \<and>
           (\<exists>o'\<in>set oldUsers. username o' = username n \<and> listGroups o' \<noteq> listGroups n)}
    \<and> set (map du_Username di) = set (map username oldUsers) - set (map username newUsers)
    \<and> (set (map username oldUsers) \<union> set (map username newUsers))
        - set (map cu_Username cr @ map uu_Username ur @ map du_Username di) =
        {username n | n. n \<in> set newUsers \<and>
           (\<exists>o'\<in>set oldUsers. username o' = username n \<and> listGroups o' = listGroups n)}
    \<and> distinct (map cu_Username cr @ map uu_Username ur @ map du_Username di)"
proof -
  have "\<forall>n\<in>set newUsers.
          (\<exists>o'\<in>set oldUsers. username o' = username n \<and> listGroups o' = listGroups n)
          \<or> hasCredentials n"
    using assms(5) by (simp add: list_all_iff)
  from diff_spec[OF assms(3) assms(4) assms(1) assms(2) this, of bId expand]
  obtain cr di ur where r:
    "diffAwsMqBrokerUsers bId expand oldUsers newUsers
       = Return ((cr, di, ur, None), map listGroups oldUsers)"
    "map cu_Username cr = map username [n\<leftarrow>newUsers. username n \<notin> set (map username oldUsers)]"
    "map du_Username di = [k\<leftarrow>map username oldUsers. k \<notin> set (map username newUsers)]"
    "map uu_Username ur =
        map username [n\<leftarrow>newUsers. \<exists>o'\<in>set oldUsers. username o' = username n
                                              \<and> listGroups o' \<noteq> listGroups n]"
    by blast
  define newNames where "newNames = set (map username newUsers)"
  define oldNames where "oldNames = set (map username oldUsers)"
  define changed where "changed = {username n | n. n \<in> set newUsers \<and>
           (\<exists>o'\<in>set oldUsers. username o' = username n \<and> listGroups o' \<noteq> listGroups n)}"
  define unchanged where "unchanged = {username n | n. n \<in> set newUsers \<and>
           (\<exists>o'\<in>set oldUsers. username o' = username n \<and> listGroups o' = listGroups n)}"
  define created where "created = set (map cu_Username cr)"
  define deleted where "deleted = set (map du_Username di)"
  define updated where "updated = set (map uu_Username ur)"
  have s1: "created = newNames - oldNames"
    unfolding created_def newNames_def oldNames_def r(2) by auto
  have s2: "updated = changed"
    unfolding updated_def changed_def r(4) by auto
  have s3: "deleted = oldNames - newNames"
    unfolding deleted_def newNames_def oldNames_def r(3) by auto
  have io: "inj_on username (set oldUsers)" using assms(1) by (simp add: distinct_map)
  have inn: "inj_on username (set newUsers)" using assms(2) by (simp add: distinct_map)
  have UEsub: "k \<in> newNames \<inter> oldNames" if "k \<in> changed \<union> unchanged" for k
  proof -
    from that obtain n o' where "n \<in> set newUsers" "username n = k" "o' \<in> set oldUsers"
      "username o' = username n"
      unfolding changed_def unchanged_def by auto
    then have "k \<in> username ` set newUsers" "k \<in> username ` set oldUsers"
      by (metis imageI)+
    then show ?thesis by (simp add: newNames_def oldNames_def)
  qed
  have UEsup: "k \<in> changed \<union> unchanged" if "k \<in> newNames \<inter> oldNames" for k
  proof -
    from that obtain n o' where no: "n \<in> set newUsers" "username n = k" "o' \<in> set oldUsers"
      "username o' = k" unfolding newNames_def oldNames_def by auto
    show ?thesis
    proof (cases "listGroups o' = listGroups n")
      case True
      then have "k \<in> unchanged" unfolding unchanged_def using no by auto
      then show ?thesis by simp
    next
      case False
      then have "k \<in> changed" unfolding changed_def using no by auto
      then show ?thesis by simp
    qed
  qed
  have UE: "changed \<union> unchanged = newNames \<inter> oldNames" using UEsub UEsup by blast
  have UEd: "changed \<inter> unchanged = {}"
  proof (rule ccontr)
    assume "changed \<inter> unchanged \<noteq> {}"
    then obtain k where k: "k \<in> changed" "k \<in> unchanged" by blast
    from k(1) obtain n o' where
      a: "n \<in> set newUsers" "username n = k" "o' \<in> set oldUsers" "username o' = username n"
         "listGroups o' \<noteq> listGroups n"
      unfolding changed_def by auto
    from k(2) obtain n2 o2 where
      b: "n2 \<in> set newUsers" "username n2 = k" "o2 \<in> set oldUsers"
         "username o2 = username n2" "listGroups o2 = listGroups n2"
      unfolding unchanged_def by auto
    have "username n = username n2" using a(2) b(2) by simp
    with inn have "n = n2" using a(1) b(1) by (rule inj_onD)
    moreover have "username o' = username o2" using a(2,4) b(2,4) by simp
    with io have "o' = o2" using a(3) b(3) by (rule inj_onD)
    ultimately show False using a(5) b(5) by simp
  qed
  have s4': "(oldNames \<union> newNames) - (created \<union> updated \<union> deleted) = unchanged"
    unfolding s1 s2 s3 using UE UEd by blast
  have s4: "(set (map username oldUsers) \<union> set (map username newUsers))
        - set (map cu_Username cr @ map uu_Username ur @ map du_Username di) =
        {username n | n. n \<in> set newUsers \<and>
           (\<exists>o'\<in>set oldUsers. username o' = username n \<and> listGroups o' = listGroups n)}"
    using s4' unfolding oldNames_def newNames_def created_def updated_def deleted_def unchanged_def by (simp add: Un_assoc)
  have d1: "distinct (map cu_Username cr)"
    unfolding r(2) using assms(2) by (rule distinct_map_filter)
  have d2: "distinct (map uu_Username ur)"
    unfolding r(4) using assms(2) by (rule distinct_map_filter)
  have d3: "distinct (map du_Username di)"
    unfolding r(3) using assms(1) by simp
  have i: "created \<inter> updated = {}" "created \<inter> deleted = {}" "updated \<inter> deleted = {}"
    unfolding s1 s2 s3 using UE by blast+
  have d: "distinct (map cu_Username cr @ map uu_Username ur @ map du_Username di)"
    using d1 d2 d3 i unfolding created_def updated_def deleted_def by (simp add: Int_Un_distrib)
  have t1: "set (map cu_Username cr) = set (map username newUsers) - set (map username oldUsers)"
    using s1 unfolding created_def newNames_def oldNames_def .
  have t2: "set (map uu_Username ur) =
        {username n | n. n \<in> set newUsers \<and>
           (\<exists>o'\<in>set oldUsers. username o' = username n \<and> listGroups o' \<noteq> listGroups n)}"
    using s2 unfolding updated_def changed_def .
  have t3: "set (map du_Username di) = set (map username oldUsers) - set (map username newUsers)"
    using s3 unfolding deleted_def newNames_def oldNames_def .
  show ?thesis
    using r(1) t1 t2 t3 s4 d
    by (intro exI[of _ cr] exI[of _ di] exI[of _ ur] exI[of _ "map listGroups oldUsers"] conjI)
qed

text \<open>
  An instance of C1: alice is observed and declared with another console access,
  bob is observed only, carol is declared only.
\<close>

theorem diff_partition_witness:
  "distinct (map username [alice, bob]) \<and> distinct (map username [alice_console, carol])
   \<and> list_all groupsAsSet [alice, bob] \<and> list_all groupsAsSet [alice_console, carol]
   \<and> list_all hasCredentials [alice_console, carol]
   \<and> (\<exists>cr di ur oldUsers'.
      diffAwsMqBrokerUsers ''b-1'' expandStringList_example [alice, bob] [alice_console, carol]
        = Return ((cr, di, ur, None), oldUsers')
    \<and> set (map cu_Username cr) = set (map username [alice_console, carol]) - set (map username [alice, bob])
    \<and> set (map uu_Username ur) =
        {username n | n. n \<in> set [alice_console, carol] \<and>
           (\<exists>o'\<in>set [alice, bob]. username o' = username n \<and> listGroups o' \<noteq> listGroups n)}
    \<and> set (map du_Username di) = set (map username [alice, bob]) - set (map username [alice_console, carol])
    \<and> (set (map username [alice, bob]) \<union> set (map username [alice_console, carol]))
        - set (map cu_Username cr @ map uu_Username ur @ map du_Username di) =
        {username n | n. n \<in> set [alice_console, carol] \<and>
           (\<exists>o'\<in>set [alice, bob]. username o' = username n \<and> listGroups o' = listGroups n)}
    \<and> distinct (map cu_Username cr @ map uu_Username ur @ map du_Username di))"
proof -
  have h1: "distinct (map username [alice, bob])" by (simp add: example_defs)
  have h2: "distinct (map username [alice_console, carol])" by (simp add: example_defs)
  have h3: "list_all groupsAsSet [alice, bob]" by (simp add: example_defs groupsAsSet_def)
  have h4: "list_all groupsAsSet [alice_console, carol]" by (simp add: example_defs groupsAsSet_def)
  have h5: "list_all hasCredentials [alice_console, carol]" by (simp add: example_defs hasCredentials_def)
  show ?thesis
    using h1 h2 h3 h4 h5 diff_partition[OF h1 h2 h3 h4 h5, of "''b-1''" expandStringList_example]
    by (intro conjI)
qed





text \<open>
  C7 does not hold of the code. \<^verbatim>\<open>diffAwsMqBrokerUsers\<close> stores the listed groups
  into the caller's old user maps: after the call the map of alice holds a slice where
  it held a set, and a second call on the same maps panics at the type assertion
  \<^verbatim>\<open>g.(*schema.Set)\<close>. (The new users are copied before they are changed.)
\<close>

theorem diff_mutates_old:
  "diffAwsMqBrokerUsers ''b-1'' expandStringList_example [alice] []
     = Return (([], [\<lparr>du_BrokerId = ''b-1'', du_Username = ''alice''\<rparr>], [], None), [alice_listed])
   \<and> alice_listed \<noteq> alice
   \<and> diffAwsMqBrokerUsers ''b-1'' expandStringList_example [alice_listed] [] = Panic"
  by (simp add: example_defs diffAwsMqBrokerUsers_def convertOldUser_def)

subsection \<open>Applying the diff\<close>

text \<open>
  C2, as the code has it. When \<^verbatim>\<open>updateAwsMqBrokerUsers\<close> returns, \<open>mutated\<close> is true
  if and only if at least one remote call was issued, whether or not it succeeded:
  the flag is set after each call and before its error is looked at. So a successful
  call always makes it true, and when no error is returned it is true if and only if
  at least one call succeeded.
\<close>

theorem update_mutated_iff_called:
  assumes "updateAwsMqBrokerUsers conn bId expand oldUsers newUsers lg = Return (mutated, err, lg')"
  shows "\<exists>issued. lg' = lg @ issued \<and> answeredBy conn lg issued
     \<and> (mutated \<longleftrightarrow> issued \<noteq> [])
     \<and> (anySucceeded issued \<longrightarrow> mutated)
     \<and> (err = None \<longrightarrow> (mutated \<longleftrightarrow> anySucceeded issued))"
proof -
  obtain cr di ur e old' where d:
    "diffAwsMqBrokerUsers bId expand oldUsers newUsers = Return ((cr, di, ur, e), old')"
    using assms
    by (cases "diffAwsMqBrokerUsers bId expand oldUsers newUsers")
       (auto simp: updateAwsMqBrokerUsers_def)
  from update_log[OF d, of conn lg] obtain issued where n:
    "lg' = lg @ issued" "answeredBy conn lg issued" "mutated = (issued \<noteq> [])"
    "err = None \<longrightarrow> allSucceeded issued"
    using assms by auto
  have a: "anySucceeded issued \<longrightarrow> issued \<noteq> []"
    by (auto simp: anySucceeded_def)
  have b: "allSucceeded issued \<longrightarrow> issued \<noteq> [] \<longrightarrow> anySucceeded issued"
    by (cases issued) (auto simp: anySucceeded_def allSucceeded_def)
  show ?thesis using n a b by blast
qed

text \<open>An instance of C2: the creation succeeds and the deletion fails.\<close>

theorem update_mutated_iff_called_witness:
  "updateAwsMqBrokerUsers deleteUserFails ''b-1'' expandStringList_example [bob] [carol] []
     = Return (True, Some (AWSError ''NotFoundException'' ''no such user''),
         [(CreateUser carol_create, None),
          (DeleteUser bob_delete, Some (AWSError ''NotFoundException'' ''no such user''))])
   \<and> (\<exists>issued.
         [(CreateUser carol_create, None),
          (DeleteUser bob_delete, Some (AWSError ''NotFoundException'' ''no such user''))]
           = [] @ issued
       \<and> answeredBy deleteUserFails [] issued
       \<and> (True \<longleftrightarrow> issued \<noteq> [])
       \<and> (anySucceeded issued \<longrightarrow> True)
       \<and> (Some (AWSError ''NotFoundException'' ''no such user'') = None
            \<longrightarrow> (True \<longleftrightarrow> anySucceeded issued)))"
proof -
  have h: "updateAwsMqBrokerUsers deleteUserFails ''b-1'' expandStringList_example [bob] [carol] []
     = Return (True, Some (AWSError ''NotFoundException'' ''no such user''),
         [(CreateUser carol_create, None),
          (DeleteUser bob_delete, Some (AWSError ''NotFoundException'' ''no such user''))])"
    by (simp add: example_defs diff_defs update_defs)
  show ?thesis
    using h update_mutated_iff_called[OF h]
    by (intro conjI)
qed

text \<open>
  The claim C2 as stated fails: with a client that fails every call, the single
  \<^verbatim>\<open>CreateUser\<close> call fails, no call succeeds, and \<open>mutated\<close> is true.
\<close>

theorem update_mutated_without_success:
  "updateAwsMqBrokerUsers failingClient ''b-1'' expandStringList_example [] [carol] []
     = Return (True, Some (OtherError ''ServiceUnavailable''),
         [(CreateUser carol_create, Some (OtherError ''ServiceUnavailable''))])
   \<and> \<not> anySucceeded [(CreateUser carol_create, Some (OtherError ''ServiceUnavailable''))]"
  by (simp add: example_defs diff_defs update_defs anySucceeded_def)

text \<open>
  C3. For a diff result \<open>(createL, deleteL, updateL)\<close>, the calls that
  \<^verbatim>\<open>updateAwsMqBrokerUsers\<close> issues are a prefix of all creations, then all deletions,
  then all updates, in this order, each answered by the client. Without an error the
  prefix is the whole sequence and every call succeeded. With an error, the last call
  issued is the first one that failed, nothing is called after it (no later phase, no
  rollback), its error is returned as it is, and the flag returned with it is the one
  set by the calls issued so far.
\<close>

theorem update_phases_abort:
  assumes "diffAwsMqBrokerUsers bId expand oldUsers newUsers
             = Return ((createL, deleteL, updateL, e), oldUsers')"
  shows "\<exists>mutated err issued.
       updateAwsMqBrokerUsers conn bId expand oldUsers newUsers lg
         = Return (mutated, err, lg @ issued)
     \<and> map fst issued = take (length issued)
          (map CreateUser createL @ map DeleteUser deleteL @ map UpdateUser updateL)
     \<and> answeredBy conn lg issued
     \<and> (err = None \<longrightarrow>
          map fst issued = map CreateUser createL @ map DeleteUser deleteL @ map UpdateUser updateL
          \<and> allSucceeded issued)
     \<and> (\<forall>e'. err = Some e' \<longrightarrow>
          issued \<noteq> [] \<and> snd (last issued) = Some e' \<and> allSucceeded (butlast issued))
     \<and> mutated = (issued \<noteq> [])"
proof -
  from update_log[OF assms, of conn lg] obtain mutated err issued where n:
    "updateAwsMqBrokerUsers conn bId expand oldUsers newUsers lg = Return (mutated, err, lg @ issued)"
    "map fst issued = take (length issued)
          (map CreateUser createL @ map DeleteUser deleteL @ map UpdateUser updateL)"
    "answeredBy conn lg issued"
    "mutated = (issued \<noteq> [])"
    "err = None \<longrightarrow>
          map fst issued = map CreateUser createL @ map DeleteUser deleteL @ map UpdateUser updateL
          \<and> allSucceeded issued"
    "\<forall>e'. err = Some e' \<longrightarrow>
          issued \<noteq> [] \<and> snd (last issued) = Some e' \<and> allSucceeded (butlast issued)"
    by blast
  show ?thesis
    using n by (intro exI[of _ mutated] exI[of _ err] exI[of _ issued] conjI)
qed

text \<open>
  An instance of C3: bob is to be deleted and carol to be created; the creation
  succeeds, the deletion fails, and its error is returned with the flag set.
\<close>

theorem update_phases_abort_witness:
  "diffAwsMqBrokerUsers ''b-1'' expandStringList_example [bob] [carol]
     = Return (([carol_create], [bob_delete], [], None), [listGroups bob])
   \<and> updateAwsMqBrokerUsers deleteUserFails ''b-1'' expandStringList_example [bob] [carol] []
     = Return (True, Some (AWSError ''NotFoundException'' ''no such user''),
         [(CreateUser carol_create, None),
          (DeleteUser bob_delete, Some (AWSError ''NotFoundException'' ''no such user''))])
   \<and> (\<exists>mutated err issued.
       updateAwsMqBrokerUsers deleteUserFails ''b-1'' expandStringList_example [bob] [carol] []
         = Return (mutated, err, [] @ issued)
     \<and> map fst issued = take (length issued)
          (map CreateUser [carol_create] @ map DeleteUser [bob_delete] @ map UpdateUser [])
     \<and> answeredBy deleteUserFails [] issued
     \<and> (err = None \<longrightarrow>
          map fst issued = map CreateUser [carol_create] @ map DeleteUser [bob_delete] @ map UpdateUser []
          \<and> allSucceeded issued)
     \<and> (\<forall>e'. err = Some e' \<longrightarrow>
          issued \<noteq> [] \<and> snd (last issued) = Some e' \<and> allSucceeded (butlast issued))
     \<and> mutated = (issued \<noteq> []))"
proof -
  have h: "diffAwsMqBrokerUsers ''b-1'' expandStringList_example [bob] [carol]
     = Return (([carol_create], [bob_delete], [], None), [listGroups bob])"
    by (simp add: example_defs diff_defs listGroups_def groupsList_def)
  have r: "updateAwsMqBrokerUsers deleteUserFails ''b-1'' expandStringList_example [bob] [carol] []
     = Return (True, Some (AWSError ''NotFoundException'' ''no such user''),
         [(CreateUser carol_create, None),
          (DeleteUser bob_delete, Some (AWSError ''NotFoundException'' ''no such user''))])"
    by (simp add: example_defs diff_defs update_defs)
  show ?thesis
    using h r update_phases_abort[OF h, of deleteUserFails "[]"]
    by (intro conjI)
qed

subsection \<open>Carrying the passwords forward\<close>



subsection \<open>The resource\<close>

text \<open>
  C8. When \<^verbatim>\<open>DescribeBroker\<close> returns an error, \<^verbatim>\<open>resourceAwsMqBrokerRead\<close> clears
  the identifier and returns no error if the error is a \<^verbatim>\<open>NotFoundException\<close>, or a
  \<^verbatim>\<open>ForbiddenException\<close> whose message contains \<^verbatim>\<open>Forbidden\<close>; it returns every other
  error unchanged and leaves the resource data as it was.
\<close>

theorem read_absent:
  assumes "DescribeBroker (d_Id d) = Inl err"
  shows "resourceAwsMqBrokerRead isAWSErr DescribeBroker readBroker d =
     (if isAWSErr err ''NotFoundException'' [] \<or> isAWSErr err ''ForbiddenException'' ''Forbidden''
      then (d\<lparr>d_Id := []\<rparr>, None) else (d, Some err))"
  using assms by (simp add: resourceAwsMqBrokerRead_def ErrCodeNotFoundException_def ErrCodeForbiddenException_def)

text \<open>An instance of C8: the broker is not found.\<close>

theorem read_absent_witness:
  "describe_notFound (d_Id broker_d) = Inl (AWSError ''NotFoundException'' ''broker not found'')
   \<and> resourceAwsMqBrokerRead isAWSErr_example describe_notFound readBroker_example broker_d
       = (broker_d\<lparr>d_Id := []\<rparr>, None)"
proof -
  have h: "describe_notFound (d_Id broker_d)
             = Inl (AWSError ''NotFoundException'' ''broker not found'')"
    by (simp add: describe_notFound_def)
  have c: "isAWSErr_example (AWSError ''NotFoundException'' ''broker not found'')
             ''NotFoundException'' []"
    by (simp add: contains_def)
  show ?thesis
    using h c read_absent[where DescribeBroker = describe_notFound and d = broker_d
        and isAWSErr = isAWSErr_example and readBroker = readBroker_example, OF h]
    by simp
qed

text \<open>
  C9, as the code has it. In a run of \<^verbatim>\<open>resourceAwsMqBrokerUpdate\<close> in which the
  update of the security groups, the update of configuration and logs, and the
  reconciliation of the users return no error, \<^verbatim>\<open>RebootBroker\<close> is called if and
  only if \<^verbatim>\<open>apply_immediately\<close> is true and either configuration or logs changed or
  the users were reported as updated; the wait for the running state follows if and
  only if, in addition, the reboot call succeeded. Otherwise no reboot is called.
\<close>

theorem reboot_iff:
  assumes "updateSecurityGroups conn d lg = (None, lg1)"
    "updateConfiguration conn d lg1 = (None, lg2)"
    "updateUsers conn expand d lg2 = Return (usersUpdated, None, lg3)"
  shows "\<exists>err new.
      resourceAwsMqBrokerUpdate conn expand d lg = Return (err, lg @ new)
    \<and> (RebootBroker (d_Id d) \<in> fst ` set new \<longleftrightarrow>
         d_apply_immediately d \<and> (hasChanges_configuration_logs d \<or> usersUpdated))
    \<and> (WaitForState (d_Id d) \<in> fst ` set new \<longleftrightarrow>
         d_apply_immediately d \<and> (hasChanges_configuration_logs d \<or> usersUpdated)
         \<and> conn lg3 (RebootBroker (d_Id d)) = None)"
proof -
  obtain n1 where n1: "lg1 = lg @ n1" "fst ` set n1 \<subseteq> {UpdateBrokerSecurityGroups (d_Id d)}"
    using assms(1) by (auto simp: updateSecurityGroups_def invoke_def split: if_splits)
  obtain n2 where n2: "lg2 = lg1 @ n2" "fst ` set n2 \<subseteq> {UpdateBrokerConfiguration (d_Id d)}"
    using assms(2) by (auto simp: updateConfiguration_def invoke_def split: if_splits)
  obtain n3 where n3: "lg3 = lg2 @ n3" "list_all isUserCall (map fst n3)"
    using updateUsers_calls[OF assms(3)] by blast
  let ?req = "d_apply_immediately d \<and> (hasChanges_configuration_logs d \<or> usersUpdated)"
  obtain e4 lg4 where r: "rebootBroker conn d (hasChanges_configuration_logs d \<or> usersUpdated) lg3 = (e4, lg4)"
    by (cases "rebootBroker conn d (hasChanges_configuration_logs d \<or> usersUpdated) lg3") auto
  obtain n4 where n4: "lg4 = lg3 @ n4"
    "RebootBroker (d_Id d) \<in> fst ` set n4 \<longleftrightarrow> ?req"
    "WaitForState (d_Id d) \<in> fst ` set n4 \<longleftrightarrow> ?req \<and> conn lg3 (RebootBroker (d_Id d)) = None"
    using r by (auto simp: rebootBroker_def invoke_def split: if_splits option.splits)
  obtain e5 lg5 where t: "updateTags conn d lg4 = (e5, lg5)"
    by (cases "updateTags conn d lg4") auto
  obtain n5 where n5: "lg5 = lg4 @ n5" "fst ` set n5 \<subseteq> {MqUpdateTags (d_arn d)}"
    using t by (auto simp: updateTags_def invoke_def split: if_splits option.splits)
  have u3: "RebootBroker (d_Id d) \<notin> fst ` set n3" "WaitForState (d_Id d) \<notin> fst ` set n3"
    using n3(2) by (fastforce simp: list_all_iff)+
  show ?thesis
  proof (cases e4)
    case None
    have "resourceAwsMqBrokerUpdate conn expand d lg = Return (e5, lg @ (n1 @ n2 @ n3 @ n4 @ n5))"
      using assms r t None n1(1) n2(1) n3(1) n4(1) n5(1)
      by (simp add: resourceAwsMqBrokerUpdate_def)
    moreover have "RebootBroker (d_Id d) \<in> fst ` set (n1 @ n2 @ n3 @ n4 @ n5) \<longleftrightarrow> ?req"
      using n1(2) n2(2) u3(1) n4(2) n5(2) by auto
    moreover have "WaitForState (d_Id d) \<in> fst ` set (n1 @ n2 @ n3 @ n4 @ n5)
         \<longleftrightarrow> ?req \<and> conn lg3 (RebootBroker (d_Id d)) = None"
      using n1(2) n2(2) u3(2) n4(3) n5(2) by auto
    ultimately show ?thesis by blast
  next
    case (Some e)
    have "resourceAwsMqBrokerUpdate conn expand d lg = Return (Some e, lg @ (n1 @ n2 @ n3 @ n4))"
      using assms r Some n1(1) n2(1) n3(1) n4(1)
      by (simp add: resourceAwsMqBrokerUpdate_def)
    moreover have "RebootBroker (d_Id d) \<in> fst ` set (n1 @ n2 @ n3 @ n4) \<longleftrightarrow> ?req"
      using n1(2) n2(2) u3(1) n4(2) by auto
    moreover have "WaitForState (d_Id d) \<in> fst ` set (n1 @ n2 @ n3 @ n4)
         \<longleftrightarrow> ?req \<and> conn lg3 (RebootBroker (d_Id d)) = None"
      using n1(2) n2(2) u3(2) n4(3) by auto
    ultimately show ?thesis by blast
  qed
qed

text \<open>
  An instance of C9: configuration changed, carol is created, every call succeeds,
  and the broker is rebooted and waited for.
\<close>

theorem reboot_iff_witness:
  "updateSecurityGroups okClient broker_d [] = (None, [])
   \<and> updateConfiguration okClient broker_d [] = (None, [(UpdateBrokerConfiguration ''b-1'', None)])
   \<and> updateUsers okClient expandStringList_example broker_d
        [(UpdateBrokerConfiguration ''b-1'', None)]
       = Return (True, None,
           [(UpdateBrokerConfiguration ''b-1'', None), (CreateUser carol_create, None)])
   \<and> (\<exists>err new.
         resourceAwsMqBrokerUpdate okClient expandStringList_example broker_d []
           = Return (err, [] @ new)
       \<and> RebootBroker ''b-1'' \<in> fst ` set new
       \<and> WaitForState ''b-1'' \<in> fst ` set new)"
proof -
  have h1: "updateSecurityGroups okClient broker_d [] = (None, [])"
    by (simp add: updateSecurityGroups_def broker_d_def)
  have h2: "updateConfiguration okClient broker_d []
              = (None, [(UpdateBrokerConfiguration ''b-1'', None)])"
    by (simp add: updateConfiguration_def broker_d_def invoke_def okClient_def)
  have h3: "updateUsers okClient expandStringList_example broker_d
        [(UpdateBrokerConfiguration ''b-1'', None)]
       = Return (True, None,
           [(UpdateBrokerConfiguration ''b-1'', None), (CreateUser carol_create, None)])"
    by (simp add: updateUsers_def broker_d_def example_defs diff_defs update_defs)
  have f: "d_Id broker_d = ''b-1''" "d_apply_immediately broker_d"
    "hasChanges_configuration_logs broker_d"
    "okClient [(UpdateBrokerConfiguration ''b-1'', None), (CreateUser carol_create, None)]
       (RebootBroker ''b-1'') = None"
    by (simp_all add: broker_d_def okClient_def)
  show ?thesis
    using h1 h2 h3 reboot_iff[OF h1 h2 h3] f
    by simp
qed

text \<open>
  The claim C9 as stated fails: with \<^verbatim>\<open>apply_immediately\<close> set, the configuration
  changed and updated remotely, and \<^verbatim>\<open>updateAwsMqBrokerUsers\<close> reporting
  \<open>mutated = True\<close> together with the error of its failed call, the update returns
  that error and calls no reboot.
\<close>

theorem reboot_skipped_on_error:
  "resourceAwsMqBrokerUpdate createUserFails expandStringList_example broker_d []
     = Return (Some (Wrapped ''error updating MQ Broker (b-1) user''
                 (AWSError ''ConflictException'' ''user exists'')),
         [(UpdateBrokerConfiguration ''b-1'', None),
          (CreateUser carol_create, Some (AWSError ''ConflictException'' ''user exists''))])
   \<and> updateAwsMqBrokerUsers createUserFails ''b-1'' expandStringList_example [] [carol]
        [(UpdateBrokerConfiguration ''b-1'', None)]
     = Return (True, Some (AWSError ''ConflictException'' ''user exists''),
         [(UpdateBrokerConfiguration ''b-1'', None),
          (CreateUser carol_create, Some (AWSError ''ConflictException'' ''user exists''))])
   \<and> d_apply_immediately broker_d \<and> hasChanges_configuration_logs broker_d
   \<and> RebootBroker (d_Id broker_d) \<notin>
        fst ` set [(UpdateBrokerConfiguration ''b-1'', None),
          (CreateUser carol_create, Some (AWSError ''ConflictException'' ''user exists''))]"
  by (simp add: resourceAwsMqBrokerUpdate_def updateSecurityGroups_def updateConfiguration_def
        updateUsers_def rebootBroker_def updateTags_def broker_d_def
        example_defs diff_defs update_defs)



end
